theory Spec2Isabelle
  imports Complex_Main "HOL-Library.Multiset"
begin

section \<open>K-nearest-neighbours classifier: the notebook's class, embedded\<close>

text \<open>
  The class \<^verbatim>\<open>KNeighborsClassifier\<close> of
  \<^verbatim>\<open>algorithms/Classification/KNeighborsClassifier.ipynb\<close> is translated method by
  method. The class raises nothing itself: every failure comes from Python (a missing
  attribute) or from NumPy, so the errors of the model are Python's exception classes.

  NumPy is modelled as documented for release 1.25 and later: a ragged nested sequence
  given to \<^verbatim>\<open>np.array\<close> raises \<^verbatim>\<open>ValueError\<close>, and so does \<^verbatim>\<open>==\<close> on shapes that
  do not broadcast.

  Feature arrays are of dtype float64 or int64, and their entries are idealised as reals,
  with one extra value for \<^verbatim>\<open>nan\<close> (the result of \<^verbatim>\<open>0 / 0\<close> on NumPy scalars, which
  warns and does not raise). The idealised arithmetic and NumPy's agree where no float64
  result is rounded to zero or to infinity and no int64 result wraps; a theorem below that
  depends on the value of a distance says so in its hypotheses (bounds on the entries and on
  their differences), and the others hold whatever the distances are.

  Two things are not decided by the class or by NumPy's documentation and are parameters of
  the model: the order in which \<^verbatim>\<open>np.argsort\<close> leaves tied values, and the largest table
  that \<^verbatim>\<open>np.bincount\<close> can allocate on the machine.
\<close>

subsection \<open>Values\<close>

datatype py_error = AttributeError | ValueError | TypeError | IndexError | MemoryError

datatype npfloat = Fin real | NaN

text \<open>What \<^verbatim>\<open>_calculate_distance_\<close> can return: a NumPy scalar, a one-dimensional array,
  or Python's \<^verbatim>\<open>None\<close> when no branch of the \<^verbatim>\<open>if\<close> chain is taken.\<close>

datatype dist = Scalar npfloat | Vector "real list" | NoneVal

text \<open>The array \<^verbatim>\<open>distances\<close>: one-dimensional of floats, two-dimensional of floats (a
  list of rows of one length), or one-dimensional of dtype object (only its length matters
  here: it holds a \<^verbatim>\<open>None\<close>).\<close>

datatype ndarray = Arr1 "npfloat list" | Arr2 "real list list" | ArrObj nat

datatype indices = Idx1 "nat list" | Idx2 "nat list list"

text \<open>A one-dimensional label array is of an integer or of a floating dtype; indexing it
  with a two-dimensional index array gives a two-dimensional label array.\<close>

datatype labels = IntArr "int list" | FloatArr "real list"

datatype label_array = Labels1 labels | Labels2 "labels list"

text \<open>The instance: \<^verbatim>\<open>X_train\<close> and \<^verbatim>\<open>y_train\<close> are attributes that do not exist
  until \<^verbatim>\<open>fit\<close> assigns them.\<close>

record classifier =
  k :: int
  dist_metric :: string
  X_train :: "real list list option"
  y_train :: "labels option"

subsection \<open>Sequencing of calls that can raise\<close>

definition bind_err :: "'e + 'a \<Rightarrow> ('a \<Rightarrow> 'e + 'b) \<Rightarrow> 'e + 'b" where
  "bind_err m f = (case m of Inl e \<Rightarrow> Inl e | Inr v \<Rightarrow> f v)"

text \<open>A loop or comprehension over a list: the first exception ends it.\<close>

fun map_err :: "('a \<Rightarrow> 'e + 'b) \<Rightarrow> 'a list \<Rightarrow> 'e + 'b list" where
  "map_err f [] = Inr []"
| "map_err f (x # xs) =
     (case f x of
        Inl e \<Rightarrow> Inl e
      | Inr y \<Rightarrow> (case map_err f xs of Inl e \<Rightarrow> Inl e | Inr ys \<Rightarrow> Inr (y # ys)))"

subsection \<open>The NumPy functions the class calls\<close>

text \<open>\<^verbatim>\<open>np.array([x, x_train])\<close>: a (2, n) array when both rows have n entries, and
  \<^verbatim>\<open>ValueError\<close> (inhomogeneous shape) otherwise.\<close>

definition np_array2 :: "real list \<Rightarrow> real list \<Rightarrow> py_error + (real list \<times> real list)" where
  "np_array2 x x_train =
     (if length x = length x_train then Inr (x, x_train) else Inl ValueError)"

fun scalar_of :: "dist \<Rightarrow> npfloat option" where
  "scalar_of (Scalar f) = Some f"
| "scalar_of (Vector v) = None"
| "scalar_of NoneVal = None"

fun vector_of :: "dist \<Rightarrow> real list option" where
  "vector_of (Vector v) = Some v"
| "vector_of (Scalar f) = None"
| "vector_of NoneVal = None"

fun same_length :: "'a list list \<Rightarrow> bool" where
  "same_length [] = True"
| "same_length (r # rs) = list_all (\<lambda>r'. length r' = length r) rs"

text \<open>\<^verbatim>\<open>np.array(list)\<close> on the list of distances: all scalars give a float vector (the
  empty list too), all vectors of one length give a matrix, scalars mixed with
  \<^verbatim>\<open>None\<close> give an object array, anything else is inhomogeneous.\<close>

definition np_array :: "dist list \<Rightarrow> py_error + ndarray" where
  "np_array ds =
     (case those (map scalar_of ds) of
        Some fs \<Rightarrow> Inr (Arr1 fs)
      | None \<Rightarrow>
          (case those (map vector_of ds) of
             Some rows \<Rightarrow> (if same_length rows then Inr (Arr2 rows) else Inl ValueError)
           | None \<Rightarrow>
               (if list_ex (\<lambda>d. vector_of d \<noteq> None) ds then Inl ValueError
                else Inr (ArrObj (length ds)))))"

text \<open>The order of floats that sorting uses: \<^verbatim>\<open>nan\<close> goes last.\<close>

fun fle :: "npfloat \<Rightarrow> npfloat \<Rightarrow> bool" where
  "fle (Fin a) (Fin b) = (a \<le> b)"
| "fle (Fin a) NaN = True"
| "fle NaN NaN = True"
| "fle NaN (Fin b) = False"

text \<open>\<^verbatim>\<open>np.argsort\<close> is called with its default \<^verbatim>\<open>kind\<close>, which NumPy documents as
  not stable. What the documentation promises is a permutation of the positions that
  puts the values in order; which permutation, when values are tied, is left open. The
  sorting function is therefore a parameter of every definition that sorts, and
  \<open>argsort_ok\<close> is what NumPy promises of it.\<close>

definition argsort_ok :: "(npfloat list \<Rightarrow> nat list) \<Rightarrow> bool" where
  "argsort_ok argsort =
     (\<forall>ds. mset (argsort ds) = mset [0..<length ds] \<and>
           sorted_wrt fle (map (nth ds) (argsort ds)))"

text \<open>On a matrix \<^verbatim>\<open>np.argsort\<close> sorts each row (the last axis). On an object array it
  compares the entries with \<^verbatim>\<open><\<close>, which \<^verbatim>\<open>None\<close> does not support; an array of at
  most one entry is never compared.\<close>

fun np_argsort :: "(npfloat list \<Rightarrow> nat list) \<Rightarrow> ndarray \<Rightarrow> py_error + indices" where
  "np_argsort argsort (Arr1 ds) = Inr (Idx1 (argsort ds))"
| "np_argsort argsort (Arr2 rows) = Inr (Idx2 (map (\<lambda>r. argsort (map Fin r)) rows))"
| "np_argsort argsort (ArrObj n) = (if n \<le> 1 then Inr (Idx1 [0..<n]) else Inl TypeError)"

text \<open>The slice \<^verbatim>\<open>a[:n]\<close>: the first n entries, all of them when n is past the end, and
  all but the last \<open>-n\<close> when n is negative.\<close>

definition slice_to :: "int \<Rightarrow> 'a list \<Rightarrow> 'a list" where
  "slice_to n xs = (if 0 \<le> n then take (nat n) xs else take (length xs - nat (- n)) xs)"

fun slice_indices :: "int \<Rightarrow> indices \<Rightarrow> indices" where
  "slice_indices n (Idx1 is) = Idx1 (slice_to n is)"
| "slice_indices n (Idx2 rows) = Idx2 (slice_to n rows)"

text \<open>\<^verbatim>\<open>y[index_array]\<close>: an index outside the array raises \<^verbatim>\<open>IndexError\<close>.\<close>

definition gather :: "'a list \<Rightarrow> nat list \<Rightarrow> py_error + 'a list" where
  "gather ys is =
     (if list_all (\<lambda>i. i < length ys) is then Inr (map (nth ys) is) else Inl IndexError)"

fun gather_labels :: "labels \<Rightarrow> nat list \<Rightarrow> py_error + labels" where
  "gather_labels (IntArr ys) is = bind_err (gather ys is) (\<lambda>vs. Inr (IntArr vs))"
| "gather_labels (FloatArr ys) is = bind_err (gather ys is) (\<lambda>vs. Inr (FloatArr vs))"

fun getitem :: "labels \<Rightarrow> indices \<Rightarrow> py_error + label_array" where
  "getitem y (Idx1 is) = bind_err (gather_labels y is) (\<lambda>vs. Inr (Labels1 vs))"
| "getitem y (Idx2 rows) = bind_err (map_err (gather_labels y) rows) (\<lambda>vs. Inr (Labels2 vs))"

text \<open>\<^verbatim>\<open>np.bincount\<close> of a one-dimensional integer array: entry v of the result counts the
  occurrences of v, for v from 0 to the largest value; the result is empty for an empty
  array, and a negative value raises \<^verbatim>\<open>ValueError\<close>. The table has one 8-byte entry for
  each value up to the largest: NumPy refuses a table of \<^verbatim>\<open>2**60\<close> entries or more
  (\<^verbatim>\<open>ValueError\<close>, array is too big), and a smaller one that the machine cannot allocate
  raises \<^verbatim>\<open>MemoryError\<close>; \<open>limit\<close> is the largest number of entries it can.\<close>

definition bincount :: "nat \<Rightarrow> int list \<Rightarrow> py_error + nat list" where
  "bincount limit arr =
     (if list_ex (\<lambda>v. v < 0) arr then Inl ValueError
      else if arr = [] then Inr []
      else if 2 ^ 60 \<le> Suc (nat (Max (set arr))) then Inl ValueError
      else if limit < Suc (nat (Max (set arr))) then Inl MemoryError
      else Inr (map (\<lambda>v. count_list arr (int v)) [0..<Suc (nat (Max (set arr)))]))"

text \<open>\<^verbatim>\<open>a.argmax()\<close>: the first position of the largest entry; an empty array raises
  \<^verbatim>\<open>ValueError\<close>.\<close>

definition argmax :: "nat list \<Rightarrow> py_error + int" where
  "argmax cs =
     (if cs = [] then Inl ValueError
      else Inr (int (length (takeWhile (\<lambda>c. c \<noteq> Max (set cs)) cs))))"

subsection \<open>The class\<close>

text \<open>\<^verbatim>\<open>__init__\<close> stores its two arguments and checks nothing. (The defaults, 5 and
  \<^verbatim>\<open>euclidean\<close>, are arguments like any other here.)\<close>

definition init :: "int \<Rightarrow> string \<Rightarrow> py_error + classifier" where
  "init k0 metric =
     Inr \<lparr>k = k0, dist_metric = metric, X_train = None, y_train = None\<rparr>"

text \<open>\<^verbatim>\<open>_most_common_\<close> is \<^verbatim>\<open>np.bincount(arr).argmax()\<close>. \<^verbatim>\<open>bincount\<close> wants one
  dimension (else \<^verbatim>\<open>ValueError\<close>: object too deep) and a dtype that casts safely to an
  integer (else \<^verbatim>\<open>TypeError\<close>).\<close>

fun most_common :: "nat \<Rightarrow> label_array \<Rightarrow> py_error + int" where
  "most_common limit (Labels2 rows) = Inl ValueError"
| "most_common limit (Labels1 (FloatArr arr)) = Inl TypeError"
| "most_common limit (Labels1 (IntArr arr)) = bind_err (bincount limit arr) argmax"

text \<open>\<^verbatim>\<open>_calculate_distance_\<close>, on the (2, n) array \<open>points\<close> given as its two rows. The
  branches are the source's, with its spellings of the metric names; \<^verbatim>\<open>np.max\<close> of an
  empty array raises \<^verbatim>\<open>ValueError\<close>, and no branch taken returns \<^verbatim>\<open>None\<close>. Which
  branch is taken, the shape of what it returns and whether it raises are NumPy's; the
  numbers are computed in the reals (see the head of the file for where NumPy's float64 and
  int64 results are the same).\<close>

definition calculate_distance :: "classifier \<Rightarrow> real list \<times> real list \<Rightarrow> py_error + dist" where
  "calculate_distance self points =
     (let a = fst points; b = snd points in
      if dist_metric self = ''euclidean'' then
        Inr (Scalar (Fin (sqrt (sum_list (map2 (\<lambda>p q. (p - q)\<^sup>2) a b)))))
      else if dist_metric self = ''manhattan'' then
        Inr (Vector (map2 (\<lambda>p q. \<bar>p - q\<bar>) a b))
      else if dist_metric self = ''chebychev'' then
        (if a = [] then Inl ValueError
         else Inr (Scalar (Fin (Max (set (map2 (\<lambda>p q. \<bar>p - q\<bar>) a b))))))
      else if dist_metric self = ''hemming'' then
        Inr (Scalar (if length a = 0 then NaN
                     else Fin (real (length (filter (\<lambda>(p, q). p \<noteq> q) (zip a b))) / real (length a))))
      else Inr NoneVal)"

text \<open>\<^verbatim>\<open>fit\<close> assigns the two attributes and checks nothing.\<close>

definition fit :: "classifier \<Rightarrow> real list list \<Rightarrow> labels \<Rightarrow> py_error + classifier" where
  "fit self X y = Inr (self\<lparr>X_train := Some X, y_train := Some y\<rparr>)"

text \<open>The body of the loop of \<^verbatim>\<open>predict\<close>, statement by statement: the entry
  \<^verbatim>\<open>self._calculate_distance_(np.array([x, x_train]))\<close> of the comprehension, the
  array \<^verbatim>\<open>distances\<close>, then \<^verbatim>\<open>k_nearest\<close> and \<^verbatim>\<open>y_sorted\<close>. Reading an attribute
  that \<^verbatim>\<open>fit\<close> has not assigned raises \<^verbatim>\<open>AttributeError\<close>.\<close>

text \<open>\<^verbatim>\<open>len(distances)\<close>, the length of the first axis.\<close>

fun first_axis :: "ndarray \<Rightarrow> nat" where
  "first_axis (Arr1 fs) = length fs"
| "first_axis (Arr2 rows) = length rows"
| "first_axis (ArrObj n) = n"

definition pair_distance :: "classifier \<Rightarrow> real list \<Rightarrow> real list \<Rightarrow> py_error + dist" where
  "pair_distance self x x_train = bind_err (np_array2 x x_train) (calculate_distance self)"

definition distances :: "classifier \<Rightarrow> real list \<Rightarrow> py_error + ndarray" where
  "distances self x =
     (case X_train self of
        None \<Rightarrow> Inl AttributeError
      | Some X \<Rightarrow> bind_err (map_err (pair_distance self x) X) np_array)"

definition k_nearest ::
  "(npfloat list \<Rightarrow> nat list) \<Rightarrow> classifier \<Rightarrow> real list \<Rightarrow> py_error + indices" where
  "k_nearest argsort self x =
     bind_err (distances self x)
       (\<lambda>ds. bind_err (np_argsort argsort ds) (\<lambda>order. Inr (slice_indices (k self) order)))"

definition y_sorted ::
  "(npfloat list \<Rightarrow> nat list) \<Rightarrow> classifier \<Rightarrow> real list \<Rightarrow> py_error + label_array" where
  "y_sorted argsort self x =
     bind_err (k_nearest argsort self x)
       (\<lambda>nearest. case y_train self of
                     None \<Rightarrow> Inl AttributeError
                   | Some y \<Rightarrow> getitem y nearest)"

definition predict_one ::
  "nat \<Rightarrow> (npfloat list \<Rightarrow> nat list) \<Rightarrow> classifier \<Rightarrow> real list \<Rightarrow> py_error + int" where
  "predict_one limit argsort self x = bind_err (y_sorted argsort self x) (most_common limit)"

definition predict ::
  "nat \<Rightarrow> (npfloat list \<Rightarrow> nat list) \<Rightarrow> classifier \<Rightarrow> real list list \<Rightarrow>
   py_error + int list" where
  "predict limit argsort self X = map_err (predict_one limit argsort self) X"

text \<open>\<^verbatim>\<open>predictions == y\<close> compares a list with an array, element by element after
  broadcasting: a side of length one is repeated, other unequal lengths raise. (The true
  labels \<open>y\<close> are a NumPy array, as in the notebook; a Python list would be compared as
  a whole.)\<close>

fun label_eq :: "int \<Rightarrow> labels \<Rightarrow> nat \<Rightarrow> bool" where
  "label_eq p (IntArr ys) i = (p = ys ! i)"
| "label_eq p (FloatArr ys) i = (real_of_int p = ys ! i)"

fun len :: "labels \<Rightarrow> nat" where
  "len (IntArr ys) = length ys"
| "len (FloatArr ys) = length ys"

definition np_equal :: "int list \<Rightarrow> labels \<Rightarrow> py_error + bool list" where
  "np_equal ps y =
     (if length ps = len y then Inr (map (\<lambda>i. label_eq (ps ! i) y i) [0..<len y])
      else if length ps = 1 then Inr (map (\<lambda>i. label_eq (ps ! 0) y i) [0..<len y])
      else if len y = 1 then Inr (map (\<lambda>i. label_eq (ps ! i) y 0) [0..<length ps])
      else Inl ValueError)"

text \<open>\<^verbatim>\<open>evaluate\<close>: \<^verbatim>\<open>np.sum(...) / len(y)\<close> divides a NumPy integer, so a zero divisor
  gives \<^verbatim>\<open>nan\<close> (the sum is then zero as well) and raises nothing.\<close>

definition evaluate ::
  "nat \<Rightarrow> (npfloat list \<Rightarrow> nat list) \<Rightarrow> classifier \<Rightarrow> real list list \<Rightarrow> labels \<Rightarrow>
   py_error + npfloat" where
  "evaluate limit argsort self X y =
     bind_err (predict limit argsort self X)
       (\<lambda>predictions. bind_err (np_equal predictions y)
          (\<lambda>hits. Inr (if len y = 0 then NaN
                        else Fin (real (length (filter id hits)) / real (len y)))))"

subsection \<open>Two sorting functions that meet NumPy's promise\<close>

fun insert_by :: "('a \<Rightarrow> 'a \<Rightarrow> bool) \<Rightarrow> 'a \<Rightarrow> 'a list \<Rightarrow> 'a list" where
  "insert_by prec x [] = [x]"
| "insert_by prec x (y # ys) =
     (if prec x y then x # y # ys else y # insert_by prec x ys)"

fun isort_by :: "('a \<Rightarrow> 'a \<Rightarrow> bool) \<Rightarrow> 'a list \<Rightarrow> 'a list" where
  "isort_by prec [] = []"
| "isort_by prec (x # xs) = insert_by prec x (isort_by prec xs)"

text \<open>Ties keep the order of the positions (a stable sort).\<close>

definition argsort_stable :: "npfloat list \<Rightarrow> nat list" where
  "argsort_stable ds = isort_by (\<lambda>i j. fle (ds ! i) (ds ! j)) [0..<length ds]"

text \<open>Ties come out in the reverse order of the positions.\<close>

definition argsort_ties_reversed :: "npfloat list \<Rightarrow> nat list" where
  "argsort_ties_reversed ds =
     isort_by (\<lambda>i j. \<not> fle (ds ! j) (ds ! i)) [0..<length ds]"

subsection \<open>The metrics that give a finite scalar\<close>

text \<open>Of the names the source tests for, \<^verbatim>\<open>euclidean\<close> always returns a number, and
  \<^verbatim>\<open>chebychev\<close> and \<^verbatim>\<open>hemming\<close> do on vectors of n > 0 entries. (\<^verbatim>\<open>manhattan\<close>
  returns an array, every other name \<^verbatim>\<open>None\<close>.)\<close>

definition scalar_metric :: "string \<Rightarrow> nat \<Rightarrow> bool" where
  "scalar_metric metric n =
     (metric = ''euclidean'' \<or> (0 < n \<and> (metric = ''chebychev'' \<or> metric = ''hemming'')))"

section \<open>Lemmas about sequencing\<close>

lemma bind_err_simps [simp]:
  "bind_err (Inl e) f = Inl e"
  "bind_err (Inr v) f = f v"
  by (simp_all add: bind_err_def)

lemma map_err_Inr:
  "(\<And>x. x \<in> set xs \<Longrightarrow> f x = Inr (g x)) \<Longrightarrow> map_err f xs = Inr (map g xs)"
  by (induction xs) auto

lemma map_err_Inl:
  "x \<in> set xs \<Longrightarrow> f x = Inl e \<Longrightarrow> \<exists>e'. map_err f xs = Inl e'"
  by (induction xs) (auto split: sum.splits)

lemma map_err_first_Inl:
  "map_err f pre = Inr ys \<Longrightarrow> f x = Inl e \<Longrightarrow> map_err f (pre @ x # post) = Inl e"
  by (induction pre arbitrary: ys) (auto split: sum.splits)

lemma map_err_length:
  "map_err f xs = Inr ys \<Longrightarrow> length ys = length xs"
  by (induction xs arbitrary: ys) (auto split: sum.splits)

lemma map_err_nth:
  "map_err f xs = Inr ys \<Longrightarrow> i < length xs \<Longrightarrow> f (xs ! i) = Inr (ys ! i)"
proof (induction xs arbitrary: ys i)
  case Nil
  then show ?case by simp
next
  case (Cons x xs)
  then show ?case by (cases i) (auto split: sum.splits)
qed

section \<open>The two sorting functions meet the promise\<close>

lemma fle_total: "fle a b \<or> fle b a"
  by (cases a; cases b) auto

lemma fle_trans: "fle a b \<Longrightarrow> fle b c \<Longrightarrow> fle a c"
  by (cases a; cases b; cases c) auto

lemma fle_refl: "fle a a"
  by (cases a) auto

lemma mset_insert_by: "mset (insert_by prec x xs) = add_mset x (mset xs)"
  by (induction xs) auto

lemma mset_isort_by: "mset (isort_by prec xs) = mset xs"
  by (induction xs) (auto simp: mset_insert_by)

lemma set_insert_by: "set (insert_by prec x xs) = insert x (set xs)"
  by (induction xs) auto

lemma sorted_insert_by:
  assumes tr: "\<And>a b c. le a b \<Longrightarrow> le b c \<Longrightarrow> le a c"
    and p1: "\<And>a b. prec a b \<Longrightarrow> le a b"
    and p2: "\<And>a b. \<not> prec a b \<Longrightarrow> le b a"
  shows "sorted_wrt le xs \<Longrightarrow> sorted_wrt le (insert_by prec x xs)"
proof (induction xs)
  case Nil
  then show ?case by simp
next
  case (Cons y ys)
  show ?case
  proof (cases "prec x y")
    case True
    have xy: "le x y" using True by (rule p1)
    have "\<forall>z\<in>set ys. le x z"
    proof
      fix z assume "z \<in> set ys"
      with Cons.prems have "le y z" by simp
      with xy show "le x z" by (rule tr)
    qed
    with True xy Cons.prems show ?thesis by simp
  next
    case False
    then have "le y x" by (rule p2)
    with False Cons show ?thesis by (auto simp: set_insert_by)
  qed
qed

lemma sorted_isort_by:
  assumes "\<And>a b c. le a b \<Longrightarrow> le b c \<Longrightarrow> le a c"
    and "\<And>a b. prec a b \<Longrightarrow> le a b"
    and "\<And>a b. \<not> prec a b \<Longrightarrow> le b a"
  shows "sorted_wrt le (isort_by prec xs)"
  by (induction xs) (auto intro: sorted_insert_by [OF assms])

lemma argsort_stable_ok: "argsort_ok argsort_stable"
  unfolding argsort_ok_def argsort_stable_def
proof (intro allI conjI)
  fix ds :: "npfloat list"
  show "mset (isort_by (\<lambda>i j. fle (ds ! i) (ds ! j)) [0..<length ds]) = mset [0..<length ds]"
    by (rule mset_isort_by)
  have "sorted_wrt (\<lambda>i j. fle (ds ! i) (ds ! j)) (isort_by (\<lambda>i j. fle (ds ! i) (ds ! j)) [0..<length ds])"
    by (rule sorted_isort_by) (use fle_total fle_trans in blast)+
  then show "sorted_wrt fle (map ((!) ds) (isort_by (\<lambda>i j. fle (ds ! i) (ds ! j)) [0..<length ds]))"
    by (simp add: sorted_wrt_map)
qed

lemma argsort_ties_reversed_ok: "argsort_ok argsort_ties_reversed"
  unfolding argsort_ok_def argsort_ties_reversed_def
proof (intro allI conjI)
  fix ds :: "npfloat list"
  show "mset (isort_by (\<lambda>i j. \<not> fle (ds ! j) (ds ! i)) [0..<length ds]) = mset [0..<length ds]"
    by (rule mset_isort_by)
  have "sorted_wrt (\<lambda>i j. fle (ds ! i) (ds ! j)) (isort_by (\<lambda>i j. \<not> fle (ds ! j) (ds ! i)) [0..<length ds])"
    by (rule sorted_isort_by) (use fle_total fle_trans in blast)+
  then show "sorted_wrt fle (map ((!) ds) (isort_by (\<lambda>i j. \<not> fle (ds ! j) (ds ! i)) [0..<length ds]))"
    by (simp add: sorted_wrt_map)
qed

text \<open>What follows from the promise alone.\<close>

lemma argsort_ok_set: "argsort_ok f \<Longrightarrow> set (f ds) = {0..<length ds}"
  unfolding argsort_ok_def by (metis mset_eq_setD set_upt)

lemma argsort_ok_length: "argsort_ok f \<Longrightarrow> length (f ds) = length ds"
  unfolding argsort_ok_def by (metis length_upt mset_eq_length minus_nat.diff_0)

lemma argsort_ok_distinct: "argsort_ok f \<Longrightarrow> distinct (f ds)"
  unfolding argsort_ok_def by (metis distinct_upt mset_eq_imp_distinct_iff)

lemma argsort_ok_sorted: "argsort_ok f \<Longrightarrow> sorted_wrt fle (map (nth ds) (f ds))"
  unfolding argsort_ok_def by blast

lemma argsort_ok_gather:
  assumes "argsort_ok f" "length ys = length ds"
  shows "mset (map (nth ys) (f ds)) = mset ys"
proof -
  have "mset (map (nth ys) (f ds)) = image_mset (nth ys) (mset (f ds))" by simp
  also have "\<dots> = image_mset (nth ys) (mset [0..<length ys])"
    using assms unfolding argsort_ok_def by simp
  also have "\<dots> = mset (map (nth ys) [0..<length ys])" by simp
  also have "\<dots> = mset ys" by (simp add: map_nth)
  finally show ?thesis .
qed

section \<open>Counting and the vote\<close>

lemma count_list_mset: "mset xs = mset ys \<Longrightarrow> count_list xs v = count_list ys v"
  by (metis count_mset)

lemma bincount_mset: "mset xs = mset ys \<Longrightarrow> bincount limit xs = bincount limit ys"
proof -
  assume m: "mset xs = mset ys"
  then have s: "set xs = set ys" by (rule mset_eq_setD)
  have e: "(xs = []) = (ys = [])" using m by (metis mset_zero_iff)
  have c: "\<And>v. count_list xs v = count_list ys v" using m by (rule count_list_mset)
  show ?thesis
    unfolding bincount_def list_ex_iff s e by (simp add: c)
qed

lemma most_common_mset:
  "mset xs = mset ys \<Longrightarrow>
   most_common limit (Labels1 (IntArr xs)) = most_common limit (Labels1 (IntArr ys))"
  using bincount_mset [of xs ys limit] by simp

lemma argmax_props:
  assumes "cs \<noteq> []"
  shows "\<exists>i. argmax cs = Inr (int i) \<and> i < length cs \<and> cs ! i = Max (set cs) \<and>
             (\<forall>j<i. cs ! j \<noteq> Max (set cs))"
proof -
  let ?P = "\<lambda>c. c \<noteq> Max (set cs)"
  let ?i = "length (takeWhile ?P cs)"
  have "Max (set cs) \<in> set cs" using assms by simp
  then have "takeWhile ?P cs \<noteq> cs" by (simp add: takeWhile_eq_all_conv)
  moreover have "takeWhile ?P cs = take ?i cs" by (rule takeWhile_eq_take)
  ultimately have "?i \<noteq> length cs" by auto
  moreover have "?i \<le> length cs" by (rule length_takeWhile_le)
  ultimately have lt: "?i < length cs" by simp
  have a: "argmax cs = Inr (int ?i)" using assms by (simp add: argmax_def)
  have b: "cs ! ?i = Max (set cs)" using nth_length_takeWhile [OF lt] by simp
  have c: "\<forall>j<?i. cs ! j \<noteq> Max (set cs)"
  proof (intro allI impI)
    fix j assume j: "j < ?i"
    then have "takeWhile ?P cs ! j = cs ! j" by (rule takeWhile_nth)
    moreover have "takeWhile ?P cs ! j \<in> set (takeWhile ?P cs)" using j by simp
    ultimately show "cs ! j \<noteq> Max (set cs)" using set_takeWhileD by fastforce
  qed
  from a lt b c show ?thesis by blast
qed

lemma count_list_pos: "0 < count_list xs x \<longleftrightarrow> x \<in> set xs"
  by (induction xs) auto

lemma most_common_vote:
  assumes ne: "arr \<noteq> []" and nonneg: "\<forall>v\<in>set arr. 0 \<le> v"
    and small: "\<forall>v\<in>set arr. v < int limit" and lim: "limit < 2 ^ 60"
  shows "\<exists>m. most_common limit (Labels1 (IntArr arr)) = Inr m \<and> m \<in> set arr \<and>
             (\<forall>v. count_list arr v \<le> count_list arr m) \<and>
             (\<forall>v. count_list arr v = count_list arr m \<longrightarrow> m \<le> v)"
proof -
  define M where "M = nat (Max (set arr))"
  define cs where "cs = map (\<lambda>v. count_list arr (int v)) [0..<Suc M]"
  have "Max (set arr) \<in> set arr" using ne by simp
  with small nonneg have "Max (set arr) < int limit" "0 \<le> Max (set arr)" by blast+
  then have fits: "Suc M \<le> limit" unfolding M_def by (simp add: Suc_le_eq nat_less_iff)
  with lim have fits': "\<not> (2 :: nat) ^ 60 \<le> Suc M" by simp
  have bc: "bincount limit arr = Inr cs"
    using ne nonneg fits fits'
    by (auto simp add: bincount_def list_ex_iff cs_def M_def simp del: upt_Suc)
  have len: "length cs = Suc M" by (simp add: cs_def del: upt_Suc)
  then have csne: "cs \<noteq> []" by auto
  have nth: "\<And>j. j < Suc M \<Longrightarrow> cs ! j = count_list arr (int j)"
    by (simp add: cs_def del: upt_Suc)
  have inrange: "\<And>v. v \<in> set arr \<Longrightarrow> nat v < Suc M \<and> int (nat v) = v"
  proof -
    fix v assume v: "v \<in> set arr"
    then have "v \<le> Max (set arr)" by simp
    moreover have "0 \<le> v" using v nonneg by blast
    ultimately show "nat v < Suc M \<and> int (nat v) = v" by (simp add: M_def)
  qed
  from argmax_props [OF csne] obtain i where i: "argmax cs = Inr (int i)" "i < length cs"
    "cs ! i = Max (set cs)" "\<forall>j<i. cs ! j \<noteq> Max (set cs)" by blast
  have ci: "count_list arr (int i) = Max (set cs)" using i(2,3) len nth by simp
  have le: "\<And>v. count_list arr v \<le> Max (set cs)"
  proof -
    fix v
    show "count_list arr v \<le> Max (set cs)"
    proof (cases "v \<in> set arr")
      case True
      then have "cs ! nat v = count_list arr v" using inrange nth by simp
      moreover have "cs ! nat v \<in> set cs" using True inrange len by simp
      ultimately show ?thesis using Max_ge [OF finite_set, of "cs ! nat v" cs] by simp
    next
      case False
      then show ?thesis by (simp add: count_list_0_iff)
    qed
  qed
  obtain w where w: "w \<in> set arr" using ne by (cases arr) auto
  then have "0 < count_list arr w" by (simp add: count_list_pos)
  with le [of w] ci have "0 < count_list arr (int i)" by simp
  then have mem: "int i \<in> set arr" by (simp add: count_list_pos)
  have tie: "\<And>v. count_list arr v = count_list arr (int i) \<Longrightarrow> int i \<le> v"
  proof -
    fix v assume eq: "count_list arr v = count_list arr (int i)"
    with \<open>0 < count_list arr (int i)\<close> have v: "v \<in> set arr"
      by (simp add: count_list_pos [symmetric])
    then have "cs ! nat v = Max (set cs)" using inrange nth eq ci by simp
    then have "\<not> nat v < i" using i(4) by blast
    then show "int i \<le> v" using inrange [OF v] by linarith
  qed
  have mc: "most_common limit (Labels1 (IntArr arr)) = Inr (int i)" using bc i(1) by simp
  have le': "\<forall>v. count_list arr v \<le> count_list arr (int i)" using le ci by simp
  from mc mem le' tie show ?thesis by blast
qed

section \<open>Distances under the scalar metrics\<close>

lemma zip_all_eq: "length a = length b \<Longrightarrow> (\<forall>(p, q)\<in>set (zip a b). p = q) \<longleftrightarrow> a = b"
  by (induction a b rule: list_induct2) auto

lemma sum_squares_nonneg: "0 \<le> sum_list (map2 (\<lambda>p q. (p - q)\<^sup>2) a (b :: real list))"
  by (rule sum_list_nonneg) auto

lemma sum_squares_zero:
  "length a = length b \<Longrightarrow> sum_list (map2 (\<lambda>p q. (p - q)\<^sup>2) a (b :: real list)) = 0 \<longleftrightarrow> a = b"
proof (induction a b rule: list_induct2)
  case Nil
  then show ?case by simp
next
  case (Cons x xs y ys)
  have "0 \<le> sum_list (map2 (\<lambda>p q. (p - q)\<^sup>2) xs ys)" by (rule sum_squares_nonneg)
  moreover have "0 \<le> (x - y)\<^sup>2" by simp
  ultimately have "(x - y)\<^sup>2 + sum_list (map2 (\<lambda>p q. (p - q)\<^sup>2) xs ys) = 0 \<longleftrightarrow>
      (x - y)\<^sup>2 = 0 \<and> sum_list (map2 (\<lambda>p q. (p - q)\<^sup>2) xs ys) = 0"
    by (simp add: add_nonneg_eq_0_iff)
  with Cons.IH show ?case by simp
qed

lemma max_abs_zero:
  assumes "length a = length b" "a \<noteq> []"
  shows "0 \<le> Max (set (map2 (\<lambda>p q. \<bar>p - q\<bar>) a (b :: real list)))"
    and "Max (set (map2 (\<lambda>p q. \<bar>p - q\<bar>) a b)) = 0 \<longleftrightarrow> a = b"
proof -
  let ?S = "set (map2 (\<lambda>p q. \<bar>p - q\<bar>) a b)"
  have fin: "finite ?S" by simp
  have ne: "?S \<noteq> {}" using assms by (cases a; cases b) auto
  have nonneg: "\<forall>v\<in>?S. 0 \<le> v" by auto
  have "Max ?S \<in> ?S" using fin ne by (rule Max_in)
  with nonneg show "0 \<le> Max ?S" by blast
  have "Max ?S = 0 \<longleftrightarrow> (\<forall>v\<in>?S. v = 0)"
  proof
    assume m: "Max ?S = 0"
    show "\<forall>v\<in>?S. v = 0"
    proof
      fix v assume v: "v \<in> ?S"
      then have "v \<le> Max ?S" using fin by simp
      moreover have "0 \<le> v" using v nonneg by blast
      ultimately show "v = 0" using m by simp
    qed
  next
    assume "\<forall>v\<in>?S. v = 0"
    moreover have "Max ?S \<in> ?S" using fin ne by (rule Max_in)
    ultimately show "Max ?S = 0" by blast
  qed
  also have "\<dots> \<longleftrightarrow> (\<forall>(p, q)\<in>set (zip a b). p = q)" by auto
  also have "\<dots> \<longleftrightarrow> a = b" using assms(1) by (rule zip_all_eq)
  finally show "Max ?S = 0 \<longleftrightarrow> a = b" .
qed

lemma count_diff_zero:
  "length a = length b \<Longrightarrow> length (filter (\<lambda>(p, q). p \<noteq> q) (zip a b)) = 0 \<longleftrightarrow> a = b"
proof -
  assume l: "length a = length b"
  have "length (filter (\<lambda>(p, q). p \<noteq> q) (zip a b)) = 0 \<longleftrightarrow> (\<forall>(p, q)\<in>set (zip a b). p = q)"
    by (auto simp: filter_empty_conv)
  with zip_all_eq [OF l] show ?thesis by simp
qed

lemma distance_scalar:
  assumes m: "scalar_metric (dist_metric self) (length x)" and l: "length t = length x"
  shows "\<exists>r. pair_distance self x t = Inr (Scalar (Fin r)) \<and>
             0 \<le> r \<and> (r = 0 \<longleftrightarrow> t = x)"
proof -
  have l': "length x = length t" using l by simp
  from m consider (e) "dist_metric self = ''euclidean''"
    | (c) "dist_metric self = ''chebychev''" "x \<noteq> []"
    | (h) "dist_metric self = ''hemming''" "x \<noteq> []"
    by (auto simp: scalar_metric_def)
  then show ?thesis
  proof cases
    case e
    let ?r = "sqrt (sum_list (map2 (\<lambda>p q. (p - q)\<^sup>2) x t))"
    have "pair_distance self x t = Inr (Scalar (Fin ?r))"
      using e l by (simp add: pair_distance_def np_array2_def calculate_distance_def)
    moreover have "0 \<le> ?r" using sum_squares_nonneg by simp
    moreover have "?r = 0 \<longleftrightarrow> t = x" using sum_squares_zero [OF l'] by auto
    ultimately show ?thesis by blast
  next
    case c
    let ?r = "Max (set (map2 (\<lambda>p q. \<bar>p - q\<bar>) x t))"
    have "pair_distance self x t = Inr (Scalar (Fin ?r))"
      using c l by (simp add: pair_distance_def np_array2_def calculate_distance_def)
    moreover have "0 \<le> ?r" using l' c(2) by (rule max_abs_zero(1))
    moreover have "?r = 0 \<longleftrightarrow> t = x" using max_abs_zero(2) [OF l' c(2)] by auto
    ultimately show ?thesis by blast
  next
    case h
    let ?n = "length (filter (\<lambda>(p, q). p \<noteq> q) (zip x t))"
    let ?r = "real ?n / real (length x)"
    have "pair_distance self x t = Inr (Scalar (Fin ?r))"
      using h l by (simp add: pair_distance_def np_array2_def calculate_distance_def)
    moreover have "0 \<le> ?r" by simp
    moreover have "?r = 0 \<longleftrightarrow> t = x" using count_diff_zero [OF l'] h(2) by auto
    ultimately show ?thesis by blast
  qed
qed

lemma those_map_Some: "those (map (\<lambda>x. Some (h x)) xs) = Some (map h xs)"
  by (induction xs) auto

lemma np_array_scalars: "np_array (map (\<lambda>x. Scalar (h x)) xs) = Inr (Arr1 (map h xs))"
proof -
  have "map scalar_of (map (\<lambda>x. Scalar (h x)) xs) = map (\<lambda>x. Some (h x)) xs" by simp
  then have "those (map scalar_of (map (\<lambda>x. Scalar (h x)) xs)) = Some (map h xs)"
    by (simp only: those_map_Some)
  then show ?thesis unfolding np_array_def by (simp only: option.case)
qed

lemma distances_scalar:
  assumes fitted: "X_train self = Some T"
    and rows: "\<forall>t\<in>set T. length t = length x"
    and m: "scalar_metric (dist_metric self) (length x)"
  shows "\<exists>ds. distances self x = Inr (Arr1 (map Fin ds)) \<and> length ds = length T \<and>
              (\<forall>i<length T. 0 \<le> ds ! i \<and> (ds ! i = 0 \<longleftrightarrow> T ! i = x))"
proof -
  let ?f = "pair_distance self x"
  have "\<forall>t\<in>set T. \<exists>r. ?f t = Inr (Scalar (Fin r)) \<and> 0 \<le> r \<and> (r = 0 \<longleftrightarrow> t = x)"
    using distance_scalar [OF m] rows by blast
  then obtain g where g: "\<forall>t\<in>set T. ?f t = Inr (Scalar (Fin (g t))) \<and> 0 \<le> g t \<and> (g t = 0 \<longleftrightarrow> t = x)"
    by (rule bchoice [THEN exE])
  then have "map_err ?f T = Inr (map (\<lambda>t. Scalar (Fin (g t))) T)"
    by (intro map_err_Inr) blast
  then have "distances self x = Inr (Arr1 (map (\<lambda>t. Fin (g t)) T))"
    using np_array_scalars [of "\<lambda>t. Fin (g t)" T] by (simp add: distances_def fitted)
  then have "distances self x = Inr (Arr1 (map Fin (map g T)))" by (simp add: comp_def)
  moreover have "length (map g T) = length T" by simp
  moreover have "\<forall>i<length T. 0 \<le> map g T ! i \<and> (map g T ! i = 0 \<longleftrightarrow> T ! i = x)"
    using g by simp
  ultimately show ?thesis by blast
qed

section \<open>Selection\<close>

lemma k_nearest_Arr1:
  "distances self x = Inr (Arr1 ds) \<Longrightarrow>
   k_nearest argsort self x = Inr (Idx1 (slice_to (k self) (argsort ds)))"
  by (simp add: k_nearest_def)


lemma slice_to_all: "int (length xs) \<le> n \<Longrightarrow> slice_to n xs = xs"
  by (simp add: slice_to_def)

lemma take_of_sorted_perm:
  assumes ok: "argsort_ok argsort"
  shows "distinct (take c (argsort ds)) \<and> set (take c (argsort ds)) \<subseteq> {0..<length ds} \<and>
         (\<forall>i\<in>set (take c (argsort ds)). \<forall>j<length ds.
             j \<notin> set (take c (argsort ds)) \<longrightarrow> fle (ds ! i) (ds ! j))"
proof (intro conjI ballI allI impI)
  let ?idx = "argsort ds"
  show "distinct (take c ?idx)" using argsort_ok_distinct [OF ok] by simp
  show "set (take c ?idx) \<subseteq> {0..<length ds}"
    using argsort_ok_set [OF ok, of ds] set_take_subset [of c ?idx] by blast
  fix i j
  assume i: "i \<in> set (take c ?idx)" and j: "j < length ds" and nj: "j \<notin> set (take c ?idx)"
  from i obtain p where p: "p < length (take c ?idx)" "take c ?idx ! p = i"
    by (auto simp: in_set_conv_nth)
  then have pc: "p < c" "p < length ?idx" "?idx ! p = i" by auto
  from j have "j \<in> set ?idx" using argsort_ok_set [OF ok, of ds] by simp
  then obtain q where q: "q < length ?idx" "?idx ! q = j" by (auto simp: in_set_conv_nth)
  have "\<not> q < c"
  proof
    assume "q < c"
    with q have "take c ?idx ! q = j" "q < length (take c ?idx)" by auto
    then have "j \<in> set (take c ?idx)" by (metis nth_mem)
    with nj show False by blast
  qed
  with pc have pq: "p < q" by simp
  have "sorted_wrt fle (map (nth ds) ?idx)" using ok by (rule argsort_ok_sorted)
  then have "fle (map (nth ds) ?idx ! p) (map (nth ds) ?idx ! q)"
    using pq q(1) by (simp add: sorted_wrt_iff_nth_less)
  then show "fle (ds ! i) (ds ! j)" using pc q by simp
qed

lemma first_of_sorted_perm:
  assumes ok: "argsort_ok argsort" and ne: "ds \<noteq> []"
  shows "\<exists>i. take 1 (argsort ds) = [i] \<and> i < length ds \<and> (\<forall>j<length ds. fle (ds ! i) (ds ! j))"
proof -
  let ?idx = "argsort ds"
  have len: "length ?idx = length ds" using ok by (rule argsort_ok_length)
  with ne obtain i rest where ir: "?idx = i # rest" by (cases ?idx) auto
  then have t: "take 1 ?idx = [i]" by simp
  have "i \<in> set ?idx" using ir by simp
  then have il: "i < length ds" using argsort_ok_set [OF ok, of ds] by simp
  have "\<forall>j<length ds. fle (ds ! i) (ds ! j)"
  proof (intro allI impI)
    fix j assume j: "j < length ds"
    show "fle (ds ! i) (ds ! j)"
    proof (cases "j \<in> set (take 1 ?idx)")
      case True
      with t have "j = i" by simp
      then show ?thesis by (simp add: fle_refl)
    next
      case False
      with take_of_sorted_perm [OF ok, of 1 ds] j t show ?thesis by simp
    qed
  qed
  with t il show ?thesis by blast
qed

lemma gather_perm:
  assumes ok: "argsort_ok argsort" and len: "length ys = length ds"
  shows "\<exists>vs. gather ys (argsort ds) = Inr vs \<and> mset vs = mset ys"
proof -
  have "set (argsort ds) = {0..<length ys}" using argsort_ok_set [OF ok, of ds] len by simp
  then have "gather ys (argsort ds) = Inr (map (nth ys) (argsort ds))"
    by (simp add: gather_def list_all_iff)
  with argsort_ok_gather [OF ok len] show ?thesis by blast
qed

lemma most_common_single:
  "0 \<le> v \<Longrightarrow> v < int limit \<Longrightarrow> limit < 2 ^ 60 \<Longrightarrow>
   most_common limit (Labels1 (IntArr [v])) = Inr v"
  using most_common_vote [of "[v]" limit] by auto

lemma map_err_nth_Inr:
  "length xs = length ys \<Longrightarrow> (\<forall>q<length xs. f (xs ! q) = Inr (ys ! q)) \<Longrightarrow> map_err f xs = Inr ys"
proof (induction xs ys rule: list_induct2)
  case Nil
  then show ?case by simp
next
  case (Cons x xs y ys)
  from Cons.prems have "f x = Inr y" by force
  moreover have "\<forall>q<length xs. f (xs ! q) = Inr (ys ! q)"
  proof (intro allI impI)
    fix q assume "q < length xs"
    then have "Suc q < length (x # xs)" by simp
    with Cons.prems have "f ((x # xs) ! Suc q) = Inr ((y # ys) ! Suc q)" by blast
    then show "f (xs ! q) = Inr (ys ! q)" by simp
  qed
  ultimately show ?case using Cons.IH by simp
qed

lemma np_equal_self: "np_equal ys (IntArr ys) = Inr (replicate (length ys) True)"
  by (simp add: np_equal_def map_replicate_const [symmetric] del: replicate.simps)
     (metis length_upt map_replicate_const minus_nat.diff_0)


text \<open>Nothing but the slice reads \<open>k\<close>, and the slice keeps everything when \<open>k\<close> is at least
  the number of training points.\<close>

lemma those_length: "those xs = Some ys \<Longrightarrow> length ys = length xs"
  by (induction xs arbitrary: ys) (auto split: option.splits)

lemma np_array_first_axis: "np_array ds = Inr a \<Longrightarrow> first_axis a = length ds"
  by (cases a) (auto simp: np_array_def split: option.splits if_splits dest: those_length)

lemma distances_first_axis:
  assumes "X_train self = Some T" and "distances self x = Inr a"
  shows "first_axis a = length T"
proof -
  from assms obtain ds where ds: "map_err (pair_distance self x) T = Inr ds" "np_array ds = Inr a"
    by (cases "map_err (pair_distance self x) T") (auto simp: distances_def)
  from ds(1) have "length ds = length T" by (rule map_err_length)
  with np_array_first_axis [OF ds(2)] show ?thesis by simp
qed

lemma distances_ignores_k: "distances (self\<lparr>k := c\<rparr>) x = distances self x"
proof -
  have "calculate_distance (self\<lparr>k := c\<rparr>) = calculate_distance self"
    by (rule ext) (simp add: calculate_distance_def cong: if_cong)
  then have "pair_distance (self\<lparr>k := c\<rparr>) x = pair_distance self x"
    by (rule_tac ext) (simp add: pair_distance_def)
  then show ?thesis by (simp add: distances_def cong: option.case_cong)
qed

lemma slice_indices_all:
  assumes ok: "argsort_ok argsort" and o: "np_argsort argsort a = Inr order"
    and big: "int (first_axis a) \<le> c"
  shows "slice_indices c order = order"
proof (cases a)
  case (Arr1 fs)
  with o have "order = Idx1 (argsort fs)" by simp
  moreover have "length (argsort fs) = length fs" using ok by (rule argsort_ok_length)
  ultimately show ?thesis using big Arr1 by (simp add: slice_to_all)
next
  case (Arr2 rows)
  with o have "order = Idx2 (map (\<lambda>r. argsort (map Fin r)) rows)" by simp
  then show ?thesis using big Arr2 by (simp add: slice_to_all)
next
  case (ArrObj n)
  with o have "order = Idx1 [0..<n]" by (auto split: if_splits)
  then show ?thesis using big ArrObj by (simp add: slice_to_all)
qed

lemma k_nearest_all:
  assumes ok: "argsort_ok argsort" and fitted: "X_train self = Some T"
    and big: "int (length T) \<le> k self"
  shows "k_nearest argsort self x = bind_err (distances self x) (np_argsort argsort)"
proof (cases "distances self x")
  case (Inl e)
  then show ?thesis by (simp add: k_nearest_def)
next
  case (Inr a)
  have fa: "first_axis a = length T" using fitted Inr by (rule distances_first_axis)
  show ?thesis
  proof (cases "np_argsort argsort a")
    case (Inl e)
    with Inr show ?thesis by (simp add: k_nearest_def)
  next
    case (Inr order)
    have "slice_indices (k self) order = order"
      using ok Inr by (rule slice_indices_all) (use fa big in simp)
    with Inr \<open>distances self x = Inr a\<close> show ?thesis by (simp add: k_nearest_def)
  qed
qed

lemma k_nearest_clamp:
  assumes ok: "argsort_ok argsort" and fitted: "X_train self = Some T"
    and big: "int (length T) \<le> k self"
  shows "k_nearest argsort self x = k_nearest argsort (self\<lparr>k := int (length T)\<rparr>) x"
proof -
  have "k_nearest argsort (self\<lparr>k := int (length T)\<rparr>) x =
        bind_err (distances (self\<lparr>k := int (length T)\<rparr>) x) (np_argsort argsort)"
    by (rule k_nearest_all [OF ok, of _ T]) (simp_all add: fitted)
  with k_nearest_all [OF ok fitted big, of x] show ?thesis by (simp add: distances_ignores_k)
qed

section \<open>The claims\<close>

subsection \<open>Distances\<close>

text \<open>
  Claim C1: under the \<^verbatim>\<open>manhattan\<close> metric the distance of two vectors is the number
  \<open>sum |a_i - b_i|\<close>. The notebook's own text gives that formula, but the branch returns
  \<^verbatim>\<open>np.abs(points[0] - points[1])\<close>, the array of the absolute differences, and never
  sums it: for \<open>[0, 0]\<close> and \<open>[1, 2]\<close> the code returns the array \<open>[1, 2]\<close>, not 3.
  The array of distances is then a matrix, and \<^verbatim>\<open>predict\<close> fails in the vote.
\<close>

theorem manhattan_is_a_vector:
  "calculate_distance (self\<lparr>dist_metric := ''manhattan''\<rparr>) (a, b)
     = Inr (Vector (map2 (\<lambda>p q. \<bar>p - q\<bar>) a b)) \<and>
   calculate_distance (self\<lparr>dist_metric := ''manhattan''\<rparr>) ([0, 0], [1, 2])
     = Inr (Vector [1, 2]) \<and>
   calculate_distance (self\<lparr>dist_metric := ''manhattan''\<rparr>) ([0, 0], [1, 2])
     \<noteq> Inr (Scalar (Fin (\<bar>0 - 1\<bar> + \<bar>0 - 2\<bar>))) \<and>
   predict limit argsort_stable \<lparr>k = 1, dist_metric = ''manhattan'',
              X_train = Some [[0, 0], [3, 4]], y_train = Some (IntArr [0, 1])\<rparr> [[1, 1]]
     = Inl ValueError"
  by (simp add: calculate_distance_def predict_def predict_one_def y_sorted_def k_nearest_def
      distances_def pair_distance_def np_array2_def np_array_def argsort_stable_def slice_to_def
      gather_def)

subsection \<open>Construction\<close>

text \<open>
  Claim C3, as amended: constructing a classifier never fails, whatever the metric name;
  the name is stored as given. For a name that is none of the four the source tests for
  (\<^verbatim>\<open>euclidean\<close>, \<^verbatim>\<open>manhattan\<close>, \<^verbatim>\<open>chebychev\<close>, \<^verbatim>\<open>hemming\<close>) the distance
  computation runs and returns \<^verbatim>\<open>None\<close>.
\<close>

theorem init_accepts_every_metric:
  "\<exists>self. init k0 metric = Inr self \<and> k self = k0 \<and> dist_metric self = metric \<and>
      (metric \<notin> {''euclidean'', ''manhattan'', ''chebychev'', ''hemming''} \<longrightarrow>
         calculate_distance self points = Inr NoneVal)"
  by (simp add: init_def calculate_distance_def)

text \<open>At the spelling \<^verbatim>\<open>chebyshev\<close>, which is not one the source tests for.\<close>

theorem init_accepts_every_metric_witness:
  "\<exists>self. init 5 ''chebyshev'' = Inr self \<and> k self = 5 \<and> dist_metric self = ''chebyshev'' \<and>
      calculate_distance self ([0], [1]) = Inr NoneVal"
  using init_accepts_every_metric [of 5 "''chebyshev''" "([0], [1])"] by simp

text \<open>Claim C3 as stated fails: the name \<^verbatim>\<open>cosine\<close> is accepted at construction, and a
  distance is then computed with it.\<close>

theorem init_unknown_metric_counterexample:
  "init 5 ''cosine'' =
     Inr \<lparr>k = 5, dist_metric = ''cosine'', X_train = None, y_train = None\<rparr> \<and>
   calculate_distance \<lparr>k = 5, dist_metric = ''cosine'', X_train = None, y_train = None\<rparr>
     ([0, 0], [3, 4]) = Inr NoneVal"
  by (simp add: init_def calculate_distance_def)

subsection \<open>The vote\<close>

text \<open>
  Claim C4: on a non-empty array of non-negative integer labels, \<^verbatim>\<open>_most_common_\<close>
  returns a label of the array whose count is the highest, and among the labels of that
  count the smallest one. The labels are below the number of entries that the count table
  can have on the machine (itself below \<^verbatim>\<open>2**60\<close>); a larger label makes
  \<^verbatim>\<open>np.bincount\<close> raise.
\<close>

theorem most_common_is_smallest_mode:
  assumes "arr \<noteq> []" and "\<forall>v\<in>set arr. 0 \<le> v"
    and "\<forall>v\<in>set arr. v < int limit" and "limit < 2 ^ 60"
  shows "\<exists>m. most_common limit (Labels1 (IntArr arr)) = Inr m \<and> m \<in> set arr \<and>
             (\<forall>v. count_list arr v \<le> count_list arr m) \<and>
             (\<forall>v. count_list arr v = count_list arr m \<longrightarrow> m \<le> v)"
  using assms by (rule most_common_vote)

text \<open>Five labels, 1 and 2 twice each, on a machine that can count labels below 1000: the
  vote returns 1. On the same machine the label 5000 is not counted.\<close>

theorem most_common_is_smallest_mode_witness:
  "[2, 1, 2, 1, 0] \<noteq> ([] :: int list) \<and> (1000 :: nat) < 2 ^ 60 \<and>
   most_common 1000 (Labels1 (IntArr [2, 1, 2, 1, 0])) = Inr 1 \<and>
   count_list [2, 1, 2, 1, 0 :: int] 1 = 2 \<and> count_list [2, 1, 2, 1, 0 :: int] 2 = 2 \<and>
   most_common 1000 (Labels1 (IntArr [5000])) = Inl MemoryError"
proof -
  let ?a = "[2, 1, 2, 1, 0] :: int list"
  have "\<exists>m. most_common 1000 (Labels1 (IntArr ?a)) = Inr m \<and> m \<in> set ?a \<and>
             (\<forall>v. count_list ?a v \<le> count_list ?a m) \<and>
             (\<forall>v. count_list ?a v = count_list ?a m \<longrightarrow> m \<le> v)"
    by (rule most_common_is_smallest_mode) simp_all
  then obtain m where m: "most_common 1000 (Labels1 (IntArr ?a)) = Inr m" "m \<in> set ?a"
    "\<forall>v. count_list ?a v \<le> count_list ?a m"
    "\<forall>v. count_list ?a v = count_list ?a m \<longrightarrow> m \<le> v" by blast
  from m(2) have "m = 2 \<or> m = 1 \<or> m = 0" by auto
  moreover from m(3) have "count_list ?a 1 \<le> count_list ?a m" by blast
  moreover from m(4) have "count_list ?a 1 = count_list ?a m \<longrightarrow> m \<le> 1" by blast
  ultimately have "m = 1" by auto
  moreover have "most_common 1000 (Labels1 (IntArr [5000])) = Inl MemoryError"
    by (simp add: bincount_def)
  ultimately show ?thesis using m(1) by simp
qed

subsection \<open>Before \<^verbatim>\<open>fit\<close>\<close>

text \<open>
  Claim C7, as amended: on a classifier that was constructed and never fitted,
  \<^verbatim>\<open>predict\<close> and \<^verbatim>\<open>evaluate\<close> fail with \<^verbatim>\<open>AttributeError\<close> (the attribute
  \<^verbatim>\<open>X_train\<close> does not exist) on every non-empty sequence of queries; on the empty
  sequence \<^verbatim>\<open>predict\<close> returns the empty list.
\<close>

theorem predict_unfitted:
  assumes "init k0 metric = Inr self"
  shows "predict limit argsort self [] = Inr [] \<and>
         (X \<noteq> [] \<longrightarrow> predict limit argsort self X = Inl AttributeError \<and>
                      evaluate limit argsort self X y = Inl AttributeError)"
proof -
  from assms have u: "X_train self = None" by (auto simp: init_def)
  have one: "\<And>x. predict_one limit argsort self x = Inl AttributeError"
    by (simp add: predict_one_def y_sorted_def k_nearest_def distances_def u)
  have "X \<noteq> [] \<Longrightarrow> predict limit argsort self X = Inl AttributeError"
    by (cases X) (simp_all add: predict_def one)
  then show ?thesis by (auto simp: predict_def evaluate_def)
qed

theorem predict_unfitted_witness:
  "init 5 ''euclidean'' = Inr \<lparr>k = 5, dist_metric = ''euclidean'', X_train = None, y_train = None\<rparr> \<and>
   predict 1000 argsort_stable
     \<lparr>k = 5, dist_metric = ''euclidean'', X_train = None, y_train = None\<rparr>
     [[1, 2]] = Inl AttributeError \<and>
   evaluate 1000 argsort_stable
     \<lparr>k = 5, dist_metric = ''euclidean'', X_train = None, y_train = None\<rparr>
     [[1, 2]] (IntArr [0]) = Inl AttributeError"
proof -
  have i: "init 5 ''euclidean'' = Inr \<lparr>k = 5, dist_metric = ''euclidean'', X_train = None, y_train = None\<rparr>"
    by (simp add: init_def)
  from predict_unfitted [OF i, of 1000 argsort_stable "[[1, 2]]" "IntArr [0]"] i
  show ?thesis by simp
qed

text \<open>Claim C7 as stated fails: with no query the loop body never runs, and nothing
  reads the missing attribute; \<^verbatim>\<open>evaluate\<close> then divides zero by zero.\<close>

theorem predict_unfitted_no_queries_counterexample:
  "init 5 ''euclidean'' = Inr \<lparr>k = 5, dist_metric = ''euclidean'', X_train = None, y_train = None\<rparr> \<and>
   predict 1000 argsort_stable
     \<lparr>k = 5, dist_metric = ''euclidean'', X_train = None, y_train = None\<rparr> []
     = Inr [] \<and>
   evaluate 1000 argsort_stable
     \<lparr>k = 5, dist_metric = ''euclidean'', X_train = None, y_train = None\<rparr> []
     (IntArr []) = Inr NaN"
  by (simp add: init_def predict_def evaluate_def np_equal_def)

subsection \<open>\<^verbatim>\<open>fit\<close>\<close>

text \<open>
  Claim C8, as amended: \<^verbatim>\<open>fit\<close> never fails. Whatever the features and the labels are,
  it stores both and leaves \<open>k\<close> and the metric as they were.
\<close>

theorem fit_stores_unchecked:
  "\<exists>self'. fit self X y = Inr self' \<and> X_train self' = Some X \<and> y_train self' = Some y \<and>
      k self' = k self \<and> dist_metric self' = dist_metric self"
  by (simp add: fit_def)

text \<open>Claim C8 as stated fails: two feature vectors with an empty label array are stored
  without an error.\<close>

theorem fit_mismatch_counterexample:
  "fit \<lparr>k = 5, dist_metric = ''euclidean'', X_train = None, y_train = None\<rparr>
     [[0, 0], [1, 1]] (IntArr []) =
   Inr \<lparr>k = 5, dist_metric = ''euclidean'', X_train = Some [[0, 0], [1, 1]], y_train = Some (IntArr [])\<rparr>"
  by (simp add: fit_def)

lemmas knn_eval =
  predict_def predict_one_def y_sorted_def k_nearest_def distances_def pair_distance_def
  np_array2_def calculate_distance_def np_array_def slice_to_def gather_def bincount_def
  argmax_def np_equal_def evaluate_def argsort_stable_def argsort_ties_reversed_def

subsection \<open>Selecting the neighbours\<close>




text \<open>On numbers, the lower position is not promised either: a sort that meets all that
  \<^verbatim>\<open>np.argsort\<close> promises can put the higher of two tied positions first.\<close>

lemma lower_index_not_promised:
  "argsort_ok argsort_ties_reversed \<and> argsort_ties_reversed [Fin 1, Fin 1] = [1, 0]"
  using argsort_ties_reversed_ok by (simp add: argsort_ties_reversed_def upt_rec)

subsection \<open>A whole prediction\<close>

lemma predict_one_clamp:
  assumes ok: "argsort_ok argsort" and fitted: "X_train self = Some T"
    and big: "int (length T) \<le> k self"
  shows "predict_one limit argsort self x =
         predict_one limit argsort (self\<lparr>k := int (length T)\<rparr>) x"
  using k_nearest_clamp [OF ok fitted big, of x]
  by (simp add: predict_one_def y_sorted_def)

lemma all_positions:
  assumes ok: "argsort_ok argsort" and fitted: "X_train self = Some T"
    and big: "int (length T) \<le> k self" and d: "distances self x = Inr (Arr1 ds)"
  shows "k_nearest argsort self x = Inr (Idx1 (argsort ds)) \<and>
         mset (argsort ds) = mset [0..<length T]"
proof -
  have "length ds = length T" using distances_first_axis [OF fitted d] by simp
  then have "mset (argsort ds) = mset [0..<length T]" using ok by (simp add: argsort_ok_def)
  moreover have "k_nearest argsort self x = Inr (Idx1 (argsort ds))"
    using k_nearest_all [OF ok fitted big, of x] d by simp
  ultimately show ?thesis by simp
qed

lemma all_labels:
  assumes ok: "argsort_ok argsort" and fitted: "X_train self = Some T"
    and big: "int (length T) \<le> k self" and d: "distances self x = Inr (Arr1 ds)"
    and y: "y_train self = Some (IntArr ys)" and len: "length ys = length T"
  shows "\<exists>vs. y_sorted argsort self x = Inr (Labels1 (IntArr vs)) \<and> mset vs = mset ys \<and>
              predict_one limit argsort self x = most_common limit (Labels1 (IntArr ys))"
proof -
  have "length ds = length T" using distances_first_axis [OF fitted d] by simp
  with len have "length ys = length ds" by simp
  from gather_perm [OF ok this] obtain vs where
    vs: "gather ys (argsort ds) = Inr vs" "mset vs = mset ys" by blast
  have kn: "k_nearest argsort self x = Inr (Idx1 (argsort ds))"
    using all_positions [OF ok fitted big d] by simp
  have ysd: "y_sorted argsort self x = Inr (Labels1 (IntArr vs))"
    by (simp add: y_sorted_def kn y vs(1))
  have "predict_one limit argsort self x = most_common limit (Labels1 (IntArr vs))"
    by (simp add: predict_one_def ysd)
  also have "\<dots> = most_common limit (Labels1 (IntArr ys))"
    using vs(2) by (rule most_common_mset)
  finally show ?thesis using ysd vs(2) by blast
qed

text \<open>
  Claim C6, as amended: with k greater than the number n of training points the slice
  \<^verbatim>\<open>[:k]\<close> keeps every position, so \<^verbatim>\<open>predict\<close> returns, or fails, exactly as it does with
  k = n: no error comes from k, whatever the metric and the data. Where the distances of a
  query are numbers, the selection is a permutation of all n positions, and with n integer
  labels the vote is taken over all the training labels. (\<^verbatim>\<open>predict\<close> can still fail for
  another reason, as the counterexample shows.)
\<close>

theorem predict_clamps_k:
  assumes ok: "argsort_ok argsort" and fitted: "X_train self = Some T"
    and big: "int (length T) < k self"
  shows "predict limit argsort self X =
           predict limit argsort (self\<lparr>k := int (length T)\<rparr>) X \<and>
         (\<forall>x ds. distances self x = Inr (Arr1 ds) \<longrightarrow>
            (\<exists>sel. k_nearest argsort self x = Inr (Idx1 sel) \<and>
                   mset sel = mset [0..<length T])) \<and>
         (\<forall>x ds ys. distances self x = Inr (Arr1 ds) \<and> y_train self = Some (IntArr ys) \<and>
                     length ys = length T \<longrightarrow>
            (\<exists>vs. y_sorted argsort self x = Inr (Labels1 (IntArr vs)) \<and> mset vs = mset ys \<and>
                   predict_one limit argsort self x = most_common limit (Labels1 (IntArr ys))))"
proof (intro conjI allI impI)
  have big': "int (length T) \<le> k self" using big by simp
  have "predict_one limit argsort self =
        predict_one limit argsort (self\<lparr>k := int (length T)\<rparr>)"
    by (rule ext) (rule predict_one_clamp [OF ok fitted big'])
  then show "predict limit argsort self X =
             predict limit argsort (self\<lparr>k := int (length T)\<rparr>) X"
    by (simp add: predict_def)
next
  fix x ds
  assume "distances self x = Inr (Arr1 ds)"
  with all_positions [OF ok fitted, of x ds] big
  show "\<exists>sel. k_nearest argsort self x = Inr (Idx1 sel) \<and> mset sel = mset [0..<length T]"
    by simp
next
  fix x ds ys
  assume "distances self x = Inr (Arr1 ds) \<and> y_train self = Some (IntArr ys) \<and>
          length ys = length T"
  with all_labels [OF ok fitted, of x ds ys limit] big
  show "\<exists>vs. y_sorted argsort self x = Inr (Labels1 (IntArr vs)) \<and> mset vs = mset ys \<and>
             predict_one limit argsort self x = most_common limit (Labels1 (IntArr ys))"
    by simp
qed

text \<open>Two training points and k = 5: the two queries are answered as with k = 2, both with
  the label 0, the smaller of the two equally frequent training labels.\<close>

theorem predict_clamps_k_witness:
  "argsort_ok argsort_stable \<and>
   predict 1000 argsort_stable \<lparr>k = 5, dist_metric = ''euclidean'', X_train = Some [[0], [2]],
              y_train = Some (IntArr [1, 0])\<rparr> [[0], [3]] = Inr [0, 0] \<and>
   predict 1000 argsort_stable \<lparr>k = 2, dist_metric = ''euclidean'', X_train = Some [[0], [2]],
              y_train = Some (IntArr [1, 0])\<rparr> [[0], [3]] = Inr [0, 0]"
proof -
  let ?c = "\<lparr>k = 5, dist_metric = ''euclidean'', X_train = Some [[0], [2]],
              y_train = Some (IntArr [1, 0])\<rparr>"
  have two: "predict 1000 argsort_stable (?c\<lparr>k := int (length [[0], [2 :: real]])\<rparr>) [[0], [3]]
               = Inr [0, 0]"
    by (simp add: knn_eval upt_rec)
  have "predict 1000 argsort_stable ?c [[0], [3]] =
        predict 1000 argsort_stable (?c\<lparr>k := int (length [[0], [2 :: real]])\<rparr>) [[0], [3]]"
    using predict_clamps_k [OF argsort_stable_ok, of ?c "[[0], [2]]" 1000 "[[0], [3]]"] by simp
  with two argsort_stable_ok show ?thesis by simp
qed

text \<open>Claim C6 as stated fails: fitted on two points with k = 5 and the metric
  \<^verbatim>\<open>manhattan\<close>, \<^verbatim>\<open>predict\<close> raises \<^verbatim>\<open>ValueError\<close> in the vote. (No row of the matrix of
  distances, \<open>[[1, 2], [3, 2]]\<close>, has a tie.)\<close>

theorem predict_large_k_fails_counterexample:
  "predict 1000 argsort_stable \<lparr>k = 5, dist_metric = ''manhattan'', X_train = Some [[0, 0], [4, 4]],
              y_train = Some (IntArr [0, 1])\<rparr> [[1, 2]] = Inl ValueError"
  by (simp add: knn_eval upt_rec)

subsection \<open>Accuracy on the training set\<close>

lemma predict_one_self_match:
  assumes ok: "argsort_ok argsort"
    and fitted: "X_train self = Some T" "y_train self = Some (IntArr ys)"
    and len: "length ys = length T"
    and rows: "\<forall>t\<in>set T. length t = n"
    and metric: "scalar_metric (dist_metric self) n"
    and labels: "\<forall>v\<in>set ys. 0 \<le> v"
    and small: "\<forall>v\<in>set ys. v < int limit" and lim: "limit < 2 ^ 60"
    and k1: "k self = 1"
    and consistent: "\<forall>i<length T. \<forall>j<length T. T ! i = T ! j \<longrightarrow> ys ! i = ys ! j"
    and j: "j < length T" "T ! j = x"
  shows "predict_one limit argsort self x = Inr (ys ! j)"
proof -
  have lx: "length x = n" using j rows by (metis nth_mem)
  have rows': "\<forall>t\<in>set T. length t = length x" using rows lx by simp
  have metric': "scalar_metric (dist_metric self) (length x)" using metric lx by simp
  from distances_scalar [OF fitted(1) rows' metric'] obtain ds where
    ds: "distances self x = Inr (Arr1 (map Fin ds))" "length ds = length T"
    "\<forall>i<length T. 0 \<le> ds ! i \<and> (ds ! i = 0 \<longleftrightarrow> T ! i = x)" by blast
  have "map Fin ds \<noteq> []" using ds(2) j(1) by auto
  from first_of_sorted_perm [OF ok this] obtain i where
    i: "take 1 (argsort (map Fin ds)) = [i]" "i < length ds"
    "\<forall>j<length (map Fin ds). fle (map Fin ds ! i) (map Fin ds ! j)" by auto
  have iT: "i < length T" using i(2) ds(2) by simp
  from ds(3) iT have di: "0 \<le> ds ! i" "ds ! i = 0 \<longleftrightarrow> T ! i = x" by blast+
  from ds(3) j(1) have dj: "ds ! j = 0 \<longleftrightarrow> T ! j = x" by blast
  have "j < length (map Fin ds)" using j(1) ds(2) by simp
  with i(3) have "fle (map Fin ds ! i) (map Fin ds ! j)" by blast
  then have "ds ! i \<le> ds ! j" using iT j(1) ds(2) by simp
  moreover have "ds ! j = 0" using dj j(2) by blast
  ultimately have "ds ! i = 0" using di(1) by linarith
  then have "T ! i = x" using di(2) by blast
  with j(2) have "T ! i = T ! j" by simp
  with consistent iT j(1) have same: "ys ! i = ys ! j" by blast
  have kn: "k_nearest argsort self x = Inr (Idx1 [i])"
    using k_nearest_Arr1 [OF ds(1), of argsort] i(1) k1 by (simp add: slice_to_def)
  have il: "i < length ys" using i(2) ds(2) len by simp
  then have "y_sorted argsort self x = Inr (Labels1 (IntArr [ys ! i]))"
    by (simp add: y_sorted_def kn fitted(2) gather_def)
  moreover have "0 \<le> ys ! i" using labels il by (metis nth_mem)
  moreover have "ys ! i < int limit" using small il by (metis nth_mem)
  ultimately have "predict_one limit argsort self x = Inr (ys ! i)"
    using most_common_single [of "ys ! i" limit] lim
    by (simp add: predict_one_def del: most_common.simps)
  with same show ?thesis by simp
qed

text \<open>
  Claim C5, as amended: after fitting with k = 1, \<^verbatim>\<open>evaluate(X, y)\<close> is exactly 1.0 when
  the queries with their true labels are taken from the training pairs, provided there is
  at least one query and no two training points with the same features carry different
  labels. The training vectors have one length n, the labels are as many non-negative
  integers that the vote can count, \<open>y\<close> is an integer array, and the metric is one that
  returns a number.

  The last three hypotheses are conditions on the entries under which NumPy finds, as the
  reals do, that only equal points are at distance 0: the entries and n are at most
  \<^verbatim>\<open>2**20\<close> in size, so that no int64 difference, square or sum wraps, and two
  different training points differ in some entry by \<^verbatim>\<open>2**-500\<close> or more, so that
  the float64 square of that difference is not rounded to zero.
\<close>

theorem evaluate_on_training_pairs:
  assumes ok: "argsort_ok argsort"
    and fitted: "X_train self = Some T" "y_train self = Some (IntArr ys)"
    and len: "length ys = length T"
    and rows: "\<forall>t\<in>set T. length t = n"
    and metric: "scalar_metric (dist_metric self) n"
    and labels: "\<forall>v\<in>set ys. 0 \<le> v"
    and small: "\<forall>v\<in>set ys. v < int limit" and lim: "limit < 2 ^ 60"
    and k1: "k self = 1"
    and consistent: "\<forall>i<length T. \<forall>j<length T. T ! i = T ! j \<longrightarrow> ys ! i = ys ! j"
    and some: "X \<noteq> []" and leny: "length y = length X"
    and subset: "\<forall>q<length X. \<exists>j<length T. T ! j = X ! q \<and> ys ! j = y ! q"
    and bounded: "\<forall>t\<in>set T. \<forall>c\<in>set t. \<bar>c\<bar> \<le> 2 ^ 20"
    and short: "n \<le> 2 ^ 20"
    and apart: "\<forall>i<length T. \<forall>j<length T. T ! i \<noteq> T ! j \<longrightarrow>
                  (\<exists>c<n. 1 / 2 ^ 500 \<le> \<bar>T ! i ! c - T ! j ! c\<bar>)"
  shows "evaluate limit argsort self X (IntArr y) = Inr (Fin 1)"
proof -
  have "\<forall>q<length X. predict_one limit argsort self (X ! q) = Inr (y ! q)"
  proof (intro allI impI)
    fix q assume "q < length X"
    with subset obtain j where j: "j < length T" "T ! j = X ! q" "ys ! j = y ! q" by blast
    from predict_one_self_match
      [OF ok fitted len rows metric labels small lim k1 consistent j(1,2)] j(3)
    show "predict_one limit argsort self (X ! q) = Inr (y ! q)" by simp
  qed
  with leny have "map_err (predict_one limit argsort self) X = Inr y"
    by (intro map_err_nth_Inr) simp_all
  then have p: "predict limit argsort self X = Inr y" by (simp add: predict_def)
  have pos: "0 < length y" using some leny by simp
  have "filter id (replicate (length y) True) = replicate (length y) True" by simp
  then have "length (filter id (replicate (length y) True)) = length y" by simp
  with pos show ?thesis by (simp add: evaluate_def p np_equal_self)
qed

text \<open>The training set holds the same point twice with the same label; the queries are
  all three training points.\<close>

theorem evaluate_on_training_pairs_witness:
  "argsort_ok argsort_stable \<and> scalar_metric ''euclidean'' 1 \<and> (1000 :: nat) < 2 ^ 60 \<and>
   (1 :: real) / 2 ^ 500 \<le> \<bar>0 - 2\<bar> \<and>
   evaluate 1000 argsort_stable \<lparr>k = 1, dist_metric = ''euclidean'',
              X_train = Some [[0], [2], [0]], y_train = Some (IntArr [1, 0, 1])\<rparr>
     [[0], [2], [0]] (IntArr [1, 0, 1]) = Inr (Fin 1)"
proof -
  let ?c = "\<lparr>k = 1, dist_metric = ''euclidean'', X_train = Some [[0], [2], [0]],
              y_train = Some (IntArr [1, 0, 1])\<rparr>"
  let ?T = "[[0], [2], [0 :: real]]"
  have sm: "scalar_metric (dist_metric ?c) 1" by (simp add: scalar_metric_def)
  have far: "(1 :: real) / 2 ^ 500 \<le> \<bar>0 - 2\<bar>" by simp
  have c: "\<forall>i<length ?T. \<forall>j<length ?T. ?T ! i = ?T ! j \<longrightarrow> [1, 0, 1 :: int] ! i = [1, 0, 1] ! j"
    by (auto simp: less_Suc_eq numeral_3_eq_3)
  have s: "\<forall>q<length ?T. \<exists>j<length ?T. ?T ! j = ?T ! q \<and> [1, 0, 1 :: int] ! j = [1, 0, 1] ! q"
    by auto
  have a: "\<forall>i<length ?T. \<forall>j<length ?T. ?T ! i \<noteq> ?T ! j \<longrightarrow>
             (\<exists>c<1. 1 / 2 ^ 500 \<le> \<bar>?T ! i ! c - ?T ! j ! c\<bar>)"
    using far by (auto simp: less_Suc_eq numeral_3_eq_3)
  have b: "\<forall>t\<in>set ?T. \<forall>c\<in>set t. \<bar>c\<bar> \<le> 2 ^ 20" by simp
  have "evaluate 1000 argsort_stable ?c ?T (IntArr [1, 0, 1]) = Inr (Fin 1)"
    by (rule evaluate_on_training_pairs
          [OF argsort_stable_ok _ _ _ _ sm _ _ _ _ c _ _ s b _ a]) simp_all
  with argsort_stable_ok sm far show ?thesis by simp
qed

text \<open>Claim C5 as stated fails: the training set holds the point \<open>[0]\<close> twice, with the
  labels 0 and 1. Both queries see the same distances and get the same prediction, so one
  of the two is wrong whichever way the sort orders the tie: the accuracy is 0.5. It fails
  also under \<^verbatim>\<open>manhattan\<close>, where \<^verbatim>\<open>evaluate\<close> raises, and with no query, where it is
  \<^verbatim>\<open>nan\<close>.\<close>

theorem evaluate_duplicate_point_counterexample:
  "evaluate 1000 argsort_stable \<lparr>k = 1, dist_metric = ''euclidean'', X_train = Some [[0], [0]],
              y_train = Some (IntArr [0, 1])\<rparr> [[0], [0]] (IntArr [0, 1]) = Inr (Fin (1 / 2)) \<and>
   evaluate 1000 argsort_ties_reversed \<lparr>k = 1, dist_metric = ''euclidean'',
              X_train = Some [[0], [0]], y_train = Some (IntArr [0, 1])\<rparr>
     [[0], [0]] (IntArr [0, 1]) = Inr (Fin (1 / 2)) \<and>
   evaluate 1000 argsort_stable \<lparr>k = 1, dist_metric = ''manhattan'', X_train = Some [[0], [2]],
              y_train = Some (IntArr [0, 1])\<rparr> [[0], [2]] (IntArr [0, 1]) = Inl ValueError \<and>
   evaluate 1000 argsort_stable \<lparr>k = 1, dist_metric = ''euclidean'', X_train = Some [[0], [2]],
              y_train = Some (IntArr [0, 1])\<rparr> [] (IntArr []) = Inr NaN"
  by (simp add: knn_eval upt_rec)

subsection \<open>Vectors of different lengths\<close>

lemma pair_distance_mismatch:
  "length x \<noteq> length t \<Longrightarrow> pair_distance self x t = Inl ValueError"
  by (simp add: pair_distance_def np_array2_def)

lemma predict_one_mismatch:
  assumes fitted: "X_train self = Some T" and ne: "T \<noteq> []"
    and rows: "\<forall>t\<in>set T. length t = n" and bad: "length x \<noteq> n"
  shows "predict_one limit argsort self x = Inl ValueError"
proof -
  from ne obtain t rest where T: "T = t # rest" by (cases T) auto
  with rows bad have "length x \<noteq> length t" by auto
  then have "pair_distance self x t = Inl ValueError" by (rule pair_distance_mismatch)
  then have "map_err (pair_distance self x) T = Inl ValueError" by (simp add: T)
  then have "distances self x = Inl ValueError" by (simp add: distances_def fitted)
  then show ?thesis by (simp add: predict_one_def y_sorted_def k_nearest_def)
qed

text \<open>
  Claim C9, as amended: the class has no check of dimensions and no error of its own for
  them. A distance between two vectors of different lengths is never computed, for any
  metric: building the pair \<^verbatim>\<open>np.array([x, x_train])\<close> raises NumPy's
  \<^verbatim>\<open>ValueError\<close>. So \<^verbatim>\<open>predict\<close>, fitted on a non-empty training set of vectors of
  length n, fails when a query has another length: with that \<^verbatim>\<open>ValueError\<close> when the
  queries before it were answered, and otherwise with the error of the first query that
  failed.
\<close>

theorem dimension_mismatch_fails:
  "(length a \<noteq> length b \<longrightarrow> pair_distance self a b = Inl ValueError) \<and>
   (X_train self = Some T \<and> T \<noteq> [] \<and> (\<forall>t\<in>set T. length t = n) \<and>
    x \<in> set X \<and> length x \<noteq> n \<longrightarrow>
      (\<exists>e. predict limit argsort self X = Inl e) \<and>
      (\<forall>pre post ps. X = pre @ x # post \<and> predict limit argsort self pre = Inr ps \<longrightarrow>
         predict limit argsort self X = Inl ValueError))"
proof (intro conjI impI)
  assume "length a \<noteq> length b"
  then show "pair_distance self a b = Inl ValueError" by (rule pair_distance_mismatch)
next
  assume h: "X_train self = Some T \<and> T \<noteq> [] \<and> (\<forall>t\<in>set T. length t = n) \<and>
    x \<in> set X \<and> length x \<noteq> n"
  then have one: "predict_one limit argsort self x = Inl ValueError"
    by (intro predict_one_mismatch [of self T n]) simp_all
  from h have "x \<in> set X" by simp
  with one map_err_Inl [of x X "predict_one limit argsort self" ValueError]
  show "\<exists>e. predict limit argsort self X = Inl e" by (simp add: predict_def)
  show "\<forall>pre post ps. X = pre @ x # post \<and> predict limit argsort self pre = Inr ps \<longrightarrow>
         predict limit argsort self X = Inl ValueError"
  proof (intro allI impI)
    fix pre post ps
    assume a: "X = pre @ x # post \<and> predict limit argsort self pre = Inr ps"
    then have "map_err (predict_one limit argsort self) pre = Inr ps" by (simp add: predict_def)
    with one map_err_first_Inl [of "predict_one limit argsort self" pre ps x ValueError post]
    have "map_err (predict_one limit argsort self) (pre @ x # post) = Inl ValueError" by blast
    with a show "predict limit argsort self X = Inl ValueError" by (simp add: predict_def)
  qed
qed

text \<open>Fitted on two points of the plane: a pair of lengths 2 and 3 has no distance, and
  of the two queries the first is answered and the second, of length 1, fails.\<close>

theorem dimension_mismatch_fails_witness:
  "pair_distance \<lparr>k = 1, dist_metric = ''euclidean'', X_train = Some [[0, 0], [1, 1]],
              y_train = Some (IntArr [0, 1])\<rparr> [1, 2] [1, 2, 3] = Inl ValueError \<and>
   predict 1000 argsort_stable \<lparr>k = 1, dist_metric = ''euclidean'',
              X_train = Some [[0, 0], [1, 1]], y_train = Some (IntArr [0, 1])\<rparr> [[0, 0]]
     = Inr [0] \<and>
   predict 1000 argsort_stable \<lparr>k = 1, dist_metric = ''euclidean'',
              X_train = Some [[0, 0], [1, 1]], y_train = Some (IntArr [0, 1])\<rparr> [[0, 0], [1]]
     = Inl ValueError"
proof -
  let ?c = "\<lparr>k = 1, dist_metric = ''euclidean'', X_train = Some [[0, 0], [1, 1]],
              y_train = Some (IntArr [0, 1])\<rparr>"
  have p: "predict 1000 argsort_stable ?c [[0, 0]] = Inr [0]"
    by (simp add: knn_eval upt_rec)
  from dimension_mismatch_fails [of "[1, 2]" "[1, 2, 3]" ?c "[[0, 0], [1, 1]]" 2 "[1]"
      "[[0, 0], [1]]" 1000 argsort_stable]
  have "pair_distance ?c [1, 2] [1, 2, 3] = Inl ValueError"
    and "\<forall>pre post ps. [[0, 0], [1]] = pre @ [1] # post \<and>
           predict 1000 argsort_stable ?c pre = Inr ps \<longrightarrow>
         predict 1000 argsort_stable ?c [[0, 0], [1]] = Inl ValueError"
    by simp_all
  moreover have "[[0, 0], [1 :: real]] = [[0, 0]] @ [1] # []" by simp
  ultimately show ?thesis using p by blast
qed

text \<open>Claim C9 as stated fails. Under the name \<^verbatim>\<open>chebyshev\<close>, which the source does not
  test for, the first query has the right length and fails with \<^verbatim>\<open>TypeError\<close> (the
  distances are \<^verbatim>\<open>None\<close> and cannot be sorted) before the query of length 1 is looked at.
  And the \<^verbatim>\<open>ValueError\<close> of a mismatch is no kind of its own: with k = 0 and every length
  right, \<^verbatim>\<open>predict\<close> raises \<^verbatim>\<open>ValueError\<close> too.\<close>

theorem dimension_mismatch_other_error_counterexample:
  "predict 1000 argsort_stable \<lparr>k = 1, dist_metric = ''chebyshev'',
              X_train = Some [[0, 0], [1, 1]], y_train = Some (IntArr [0, 1])\<rparr> [[0, 0], [1]]
     = Inl TypeError \<and>
   predict 1000 argsort_stable \<lparr>k = 0, dist_metric = ''euclidean'',
              X_train = Some [[0, 0], [1, 1]], y_train = Some (IntArr [0, 1])\<rparr> [[0, 0]]
     = Inl ValueError"
  by (simp add: knn_eval upt_rec)

subsection \<open>Labels that the vote cannot count\<close>

lemma bincount_argmax_Inr:
  assumes "bind_err (bincount limit arr) argmax = Inr v"
  shows "arr \<noteq> [] \<and> (\<forall>u\<in>set arr. 0 \<le> u \<and> u < int limit)"
proof -
  have "\<not> list_ex (\<lambda>u. u < 0) arr" using assms by (auto simp: bincount_def split: if_splits)
  then have nn: "\<forall>u\<in>set arr. 0 \<le> u" by (auto simp: list_ex_iff)
  have ne: "arr \<noteq> []" using assms by (auto simp: bincount_def argmax_def split: if_splits)
  have "\<not> limit < Suc (nat (Max (set arr)))"
    using assms ne by (auto simp: bincount_def split: if_splits)
  then have m: "Max (set arr) < int limit" by linarith
  have "\<forall>u\<in>set arr. u < int limit"
  proof
    fix u assume "u \<in> set arr"
    then have "u \<le> Max (set arr)" by simp
    with m show "u < int limit" by simp
  qed
  with nn ne show ?thesis by simp
qed

lemma gather_subset: "gather ys is = Inr vs \<Longrightarrow> set vs \<subseteq> set ys"
  by (auto simp: gather_def list_all_iff split: if_splits)

lemma predict_one_Inr_labels:
  assumes p: "predict_one limit argsort self x = Inr v" and y: "y_train self = Some y"
  shows "\<exists>ys sel. y = IntArr ys \<and> y_sorted argsort self x = Inr (Labels1 (IntArr sel)) \<and>
           sel \<noteq> [] \<and> set sel \<subseteq> set ys \<and> (\<forall>u\<in>set sel. 0 \<le> u \<and> u < int limit)"
proof -
  from p obtain la where la: "y_sorted argsort self x = Inr la" "most_common limit la = Inr v"
    by (cases "y_sorted argsort self x") (auto simp: predict_one_def)
  from la(2) obtain sel where sel: "la = Labels1 (IntArr sel)"
    "bind_err (bincount limit sel) argmax = Inr v"
    by (cases "(limit, la)" rule: most_common.cases) auto
  from la(1) y obtain nearest where n: "getitem y nearest = Inr la"
    by (cases "k_nearest argsort self x") (auto simp: y_sorted_def)
  from n sel(1) obtain idx where g: "gather_labels y idx = Inr (IntArr sel)"
    by (cases nearest)
       (auto simp: bind_err_def split: sum.splits)
  then obtain ys where ys: "y = IntArr ys" "gather ys idx = Inr sel"
    by (cases y) (auto simp: bind_err_def split: sum.splits)
  from ys(2) have "set sel \<subseteq> set ys" by (rule gather_subset)
  with bincount_argmax_Inr [OF sel(2)] ys(1) la(1) sel(1) show ?thesis by blast
qed

lemma argsort_ok_single: "argsort_ok argsort \<Longrightarrow> argsort [a] = [0]"
proof -
  assume ok: "argsort_ok argsort"
  have "length (argsort [a]) = 1" using argsort_ok_length [OF ok, of "[a]"] by simp
  moreover have "set (argsort [a]) = {0}" using argsort_ok_set [OF ok, of "[a]"] by simp
  ultimately show ?thesis by (cases "argsort [a]") auto
qed

text \<open>
  Claim C10, as amended: \<^verbatim>\<open>predict\<close> returns only when the labels are an integer array
  and every label that reaches a vote is non-negative and small enough for the table of
  \<^verbatim>\<open>np.bincount\<close>; a training label that never reaches a vote does not make it fail.
  There are fitted states with a negative label, and with labels that are not integers, on
  which \<^verbatim>\<open>predict\<close> fails instead of returning a label.
\<close>

theorem predict_needs_countable_labels:
  assumes ok: "argsort_ok argsort"
  shows "(X \<noteq> [] \<and> y_train self = Some y \<and> predict limit argsort self X = Inr ps \<longrightarrow>
            (\<exists>ys. y = IntArr ys \<and>
               (\<forall>x\<in>set X. \<exists>sel. y_sorted argsort self x = Inr (Labels1 (IntArr sel)) \<and>
                    sel \<noteq> [] \<and> set sel \<subseteq> set ys \<and>
                    (\<forall>u\<in>set sel. 0 \<le> u \<and> u < int limit)))) \<and>
         predict limit argsort \<lparr>k = 2, dist_metric = ''euclidean'', X_train = Some [[0], [1]],
              y_train = Some (IntArr [0, - 1])\<rparr> [[0]] = Inl ValueError \<and>
         predict limit argsort \<lparr>k = 1, dist_metric = ''euclidean'', X_train = Some [[0]],
              y_train = Some (FloatArr [1 / 2])\<rparr> [[0]] = Inl TypeError"
proof (intro conjI impI)
  assume h: "X \<noteq> [] \<and> y_train self = Some y \<and> predict limit argsort self X = Inr ps"
  then have y: "y_train self = Some y"
    and p: "map_err (predict_one limit argsort self) X = Inr ps"
    by (simp_all add: predict_def)
  have each: "\<And>x. x \<in> set X \<Longrightarrow> \<exists>ys sel. y = IntArr ys \<and>
      y_sorted argsort self x = Inr (Labels1 (IntArr sel)) \<and>
      sel \<noteq> [] \<and> set sel \<subseteq> set ys \<and> (\<forall>u\<in>set sel. 0 \<le> u \<and> u < int limit)"
  proof -
    fix x assume "x \<in> set X"
    then obtain q where q: "q < length X" "X ! q = x" by (auto simp: in_set_conv_nth)
    from map_err_nth [OF p q(1)] q(2)
    have "predict_one limit argsort self x = Inr (ps ! q)" by simp
    then show "\<exists>ys sel. y = IntArr ys \<and>
      y_sorted argsort self x = Inr (Labels1 (IntArr sel)) \<and>
      sel \<noteq> [] \<and> set sel \<subseteq> set ys \<and> (\<forall>u\<in>set sel. 0 \<le> u \<and> u < int limit)"
      using y by (rule predict_one_Inr_labels)
  qed
  from h obtain x0 where "x0 \<in> set X" by (cases X) auto
  from each [OF this] obtain ys where ys: "y = IntArr ys" by blast
  with each have "\<forall>x\<in>set X. \<exists>sel. y_sorted argsort self x = Inr (Labels1 (IntArr sel)) \<and>
                    sel \<noteq> [] \<and> set sel \<subseteq> set ys \<and>
                    (\<forall>u\<in>set sel. 0 \<le> u \<and> u < int limit)" by blast
  with ys show "\<exists>ys. y = IntArr ys \<and>
               (\<forall>x\<in>set X. \<exists>sel. y_sorted argsort self x = Inr (Labels1 (IntArr sel)) \<and>
                    sel \<noteq> [] \<and> set sel \<subseteq> set ys \<and>
                    (\<forall>u\<in>set sel. 0 \<le> u \<and> u < int limit))" by blast
next
  let ?c = "\<lparr>k = 2, dist_metric = ''euclidean'', X_train = Some [[0], [1]],
              y_train = Some (IntArr [0, - 1])\<rparr>"
  have d: "distances ?c [0] = Inr (Arr1 [Fin 0, Fin 1])" by (simp add: knn_eval)
  have "\<exists>vs. y_sorted argsort ?c [0] = Inr (Labels1 (IntArr vs)) \<and> mset vs = mset [0, - 1] \<and>
           predict_one limit argsort ?c [0] = most_common limit (Labels1 (IntArr [0, - 1]))"
    by (rule all_labels [OF ok _ _ d, where T = "[[0], [1]]"]) simp_all
  then have "predict_one limit argsort ?c [0] = most_common limit (Labels1 (IntArr [0, - 1]))"
    by blast
  moreover have "most_common limit (Labels1 (IntArr [0, - 1])) = Inl ValueError"
    by (simp add: bincount_def)
  ultimately have "predict_one limit argsort ?c [0] = Inl ValueError" by simp
  then show "predict limit argsort ?c [[0]] = Inl ValueError" by (simp add: predict_def)
next
  let ?c = "\<lparr>k = 1, dist_metric = ''euclidean'', X_train = Some [[0]],
              y_train = Some (FloatArr [1 / 2])\<rparr>"
  have "distances ?c [0] = Inr (Arr1 [Fin 0])" by (simp add: knn_eval)
  then have "k_nearest argsort ?c [0] = Inr (Idx1 [0])"
    using argsort_ok_single [OF ok, of "Fin 0"] by (simp add: k_nearest_def slice_to_def)
  then have "predict_one limit argsort ?c [0] = Inl TypeError"
    by (simp add: predict_one_def y_sorted_def gather_def)
  then show "predict limit argsort ?c [[0]] = Inl TypeError" by (simp add: predict_def)
qed

text \<open>With a sort that keeps ties in order and a table of at most 1000 entries: the two
  failing states, and a fitted state whose prediction is returned.\<close>

theorem predict_needs_countable_labels_witness:
  "argsort_ok argsort_stable \<and>
   predict 1000 argsort_stable \<lparr>k = 2, dist_metric = ''euclidean'', X_train = Some [[0], [1]],
              y_train = Some (IntArr [0, - 1])\<rparr> [[0]] = Inl ValueError \<and>
   predict 1000 argsort_stable \<lparr>k = 1, dist_metric = ''euclidean'', X_train = Some [[0]],
              y_train = Some (FloatArr [1 / 2])\<rparr> [[0]] = Inl TypeError \<and>
   predict 1000 argsort_stable \<lparr>k = 1, dist_metric = ''euclidean'', X_train = Some [[0], [1]],
              y_train = Some (IntArr [3, 7])\<rparr> [[0]] = Inr [3]"
proof -
  have "predict 1000 argsort_stable \<lparr>k = 1, dist_metric = ''euclidean'',
              X_train = Some [[0], [1]], y_train = Some (IntArr [3, 7])\<rparr> [[0]] = Inr [3]"
    by (simp add: knn_eval upt_rec)
  with predict_needs_countable_labels [OF argsort_stable_ok, of _ _ _ 1000] argsort_stable_ok
  show ?thesis by blast
qed

text \<open>Claim C10 as stated fails: the training labels are 0 and -1, k is 1, and the query is
  the first training point. The negative label never reaches the vote, and \<^verbatim>\<open>predict\<close>
  returns the label 0.\<close>

theorem predict_with_negative_label_counterexample:
  "predict 1000 argsort_stable \<lparr>k = 1, dist_metric = ''euclidean'', X_train = Some [[0], [1]],
              y_train = Some (IntArr [0, - 1])\<rparr> [[0]] = Inr [0]"
  by (simp add: knn_eval upt_rec)

end
